theory Spec2Isabelle
  imports Complex_Main "HOL-Library.Word"
begin

unbundle bit_operations_syntax

section \<open>Weak-instrument Monte Carlo engine: data model\<close>

text \<open>
  The engine is \<^verbatim>\<open>services/simulation\<close> (RNG, correlated normal generator, estimators,
  replication driver, histogram binner) together with \<^verbatim>\<open>types.ts\<close>.

  Numbers. A JavaScript \<^verbatim>\<open>number\<close> is an IEEE double. Where a claim is about which
  expression the code evaluates, a \<^verbatim>\<open>number\<close> that holds a measurement is modelled as an
  exact \<^typ>\<open>real\<close> and the rounding of each operation is left out; \<^verbatim>\<open>NaN\<close> and the
  infinities are outside the model, and where JavaScript's division by zero yields a
  non-finite number, \<open>x / 0 = 0\<close> in HOL: a theorem that mentions a quotient says which
  expression is computed, and says nothing about its value at a zero divisor. Where a
  claim depends on the rounding (the guard of the IV estimator, the edges of the histogram,
  the state of the generator), the function is given with the rounding of every operation
  explicit, as a parameter \<open>rd\<close>; \<open>round_double\<close> is the rounding of IEEE doubles.
  A \<^verbatim>\<open>number\<close> that holds a count or a seed is an \<^typ>\<open>int\<close> (fractional counts are not
  modelled), and the 32-bit integer operations of the generator are operations on
  \<^typ>\<open>32 word\<close>.
\<close>

record SimulationParams =
  sampleSize :: int
  replications :: int
  ivStrength :: real
  endogeneity :: real
  betaTrue :: real
  seed :: int

record SimulationResult =
  olsEstimates :: "real list"
  ivEstimates :: "real list"
  fStats :: "real list"
  olsBias :: real
  ivBias :: real
  olsVariance :: real
  ivVariance :: real

record BinData =
  rangeStart :: real
  rangeEnd :: real
  olsFrequency :: real
  ivFrequency :: real
  midpoint :: real

section \<open>Rounding to a double\<close>

text \<open>
  Round to nearest, ties to even, with 53 significant bits: for \<open>2\<^sup>k \<le> |x| < 2\<^sup>k\<^sup>+\<^sup>1\<close>
  the doubles around \<open>x\<close> are the multiples of \<open>2\<^sup>k\<^sup>-\<^sup>5\<^sup>2\<close>. Subnormal numbers and
  overflow (magnitudes below \<open>2\<^sup>-\<^sup>1\<^sup>0\<^sup>2\<^sup>2\<close> or from \<open>2\<^sup>1\<^sup>0\<^sup>2\<^sup>4\<close>) are not modelled.
\<close>

definition round_half_even :: "real \<Rightarrow> int" where
  "round_half_even y =
     (let f = \<lfloor>y\<rfloor>
      in if y - of_int f < 1 / 2 then f
         else if 1 / 2 < y - of_int f then f + 1
         else if even f then f else f + 1)"

definition round_double :: "real \<Rightarrow> real" where
  "round_double x =
     (if x = 0 then 0
      else (let e = \<lfloor>log 2 \<bar>x\<bar>\<rfloor> - 52
            in of_int (round_half_even (x / 2 powi e)) * 2 powi e))"

section \<open>Deterministic RNG (class SeededRNG)\<close>

text \<open>
  The field \<^verbatim>\<open>state\<close> is a \<^verbatim>\<open>number\<close> that \<^verbatim>\<open>next\<close> increases by
  \<^verbatim>\<open>0x6D2B79F5\<close> = 1831565813 without wrapping: the sum is a double, exact up to
  \<open>2\<^sup>5\<^sup>3\<close> and rounded beyond (a rounded sum is again an integer). Every later operation
  (\<^verbatim>\<open>^\<close>, \<^verbatim>\<open>|\<close>, \<^verbatim>\<open>>>>\<close>, \<^verbatim>\<open>Math.imul\<close>) first reduces its operands to 32 bits, so
  the mixing steps are word operations on \<open>word_of_int state\<close>. \<^verbatim>\<open>>>> 0\<close> reads the
  final word as unsigned; the division by \<open>2\<^sup>3\<^sup>2\<close> is exact in doubles.
\<close>

record SeededRNG =
  state :: int

definition new_SeededRNG :: "int \<Rightarrow> SeededRNG" where
  "new_SeededRNG sd = \<lparr>state = sd\<rparr>"

definition rng_next :: "SeededRNG \<Rightarrow> real \<times> SeededRNG" where
  "rng_next rng =
     (let s = \<lfloor>round_double (real_of_int (state rng + 1831565813))\<rfloor>;
          t0 = (word_of_int s :: 32 word);
          t1 = (t0 XOR drop_bit 15 t0) * (t0 OR 1);
          t2 = t1 XOR (t1 + (t1 XOR drop_bit 7 t1) * (t1 OR 61))
      in (real (unat (t2 XOR drop_bit 14 t2)) / 4294967296, rng\<lparr>state := s\<rparr>))"

section \<open>Correlated normal generator\<close>

text \<open>
  The loop \<^verbatim>\<open>for (let i = 0; i < n; i++)\<close> runs \<open>nat n\<close> times; the first argument of
  \<open>gcn_loop\<close> counts the iterations that remain, \<open>u\<close> and \<open>v\<close> are the arrays built so
  far (\<^verbatim>\<open>push\<close> appends at the end).
\<close>

fun gcn_loop ::
  "nat \<Rightarrow> real \<Rightarrow> SeededRNG \<Rightarrow> real list \<Rightarrow> real list \<Rightarrow> (real list \<times> real list) \<times> SeededRNG"
where
  "gcn_loop 0 rho rng u v = ((u, v), rng)"
| "gcn_loop (Suc k) rho rng u v =
     (let (d1, rng1) = rng_next rng;
          (u2, rng2) = rng_next rng1;
          u1 = (if d1 \<le> 0 then 0.0000001 else d1);
          z1 = sqrt (- 2.0 * ln u1) * cos (2.0 * pi * u2);
          z2 = sqrt (- 2.0 * ln u1) * sin (2.0 * pi * u2);
          valV = z1;
          valU = rho * z1 + sqrt (1 - rho * rho) * z2
      in gcn_loop k rho rng2 (u @ [valU]) (v @ [valV]))"

definition generateCorrelatedNormals ::
  "int \<Rightarrow> real \<Rightarrow> SeededRNG \<Rightarrow> (real list \<times> real list) \<times> SeededRNG"
where
  "generateCorrelatedNormals n rho rng = gcn_loop (nat n) rho rng [] []"

section \<open>Estimators\<close>

text \<open>
  \<^verbatim>\<open>arr.reduce(f, 0)\<close> is \<open>foldl f 0 arr\<close>. The loops of the estimators run over the
  indices \<open>0 ..< x.length\<close> and read the other arrays at the same index; the driver only
  passes arrays of one length (an out-of-range read, \<^verbatim>\<open>undefined\<close> in JavaScript, does not
  occur there), and the theorems about the estimators assume equal lengths.
\<close>

definition mean :: "real list \<Rightarrow> real" where
  "mean arr = foldl (\<lambda>a b. a + b) 0 arr / real (length arr)"

definition variance :: "real list \<Rightarrow> real option \<Rightarrow> real" where
  "variance arr mu =
     (let m = (case mu of Some m' \<Rightarrow> m' | None \<Rightarrow> mean arr)
      in foldl (\<lambda>a b. a + (b - m) ^ 2) 0 arr / real (length arr))"

definition estimateOLS :: "real list \<Rightarrow> real list \<Rightarrow> real" where
  "estimateOLS x y =
     (let n = length x;
          xBar = mean x;
          yBar = mean y;
          (num, den) =
            foldl (\<lambda>(num, den) i.
                     (num + (x ! i - xBar) * (y ! i - yBar),
                      den + (x ! i - xBar) * (x ! i - xBar)))
                  (0, 0) [0..<n]
      in num / den)"

definition estimateIV :: "real list \<Rightarrow> real list \<Rightarrow> real list \<Rightarrow> real" where
  "estimateIV x y z =
     (let n = length x;
          xBar = mean x;
          yBar = mean y;
          zBar = mean z;
          (num, den) =
            foldl (\<lambda>(num, den) i.
                     (num + (z ! i - zBar) * (y ! i - yBar),
                      den + (z ! i - zBar) * (x ! i - xBar)))
                  (0, 0) [0..<n]
      in if \<bar>den\<bar> < 1 / 10 ^ 9 then 0 else num / den)"

text \<open>
  \<^verbatim>\<open>mean\<close> and \<^verbatim>\<open>estimateIV\<close> once more, with the rounding of every operation explicit:
  \<open>rd\<close> is applied to the result of each addition, subtraction, multiplication and
  division and to the literal \<^verbatim>\<open>1e-9\<close>. With the identity for \<open>rd\<close> these are the
  functions above.
\<close>

definition mean_rd :: "(real \<Rightarrow> real) \<Rightarrow> real list \<Rightarrow> real" where
  "mean_rd rd arr = rd (foldl (\<lambda>a b. rd (a + b)) 0 arr / real (length arr))"

definition estimateIV_rd ::
  "(real \<Rightarrow> real) \<Rightarrow> real list \<Rightarrow> real list \<Rightarrow> real list \<Rightarrow> real"
where
  "estimateIV_rd rd x y z =
     (let n = length x;
          xBar = mean_rd rd x;
          yBar = mean_rd rd y;
          zBar = mean_rd rd z;
          (num, den) =
            foldl (\<lambda>(num, den) i.
                     (rd (num + rd (rd (z ! i - zBar) * rd (y ! i - yBar))),
                      rd (den + rd (rd (z ! i - zBar) * rd (x ! i - xBar)))))
                  (0, 0) [0..<n]
      in if \<bar>den\<bar> < rd (1 / 10 ^ 9) then 0 else rd (num / den))"

section \<open>Replication driver\<close>

text \<open>
  One replication, lines 144 to 175 of the driver's loop body, in three parts: the sample,
  the first-stage F-statistic and the three estimates. \<^verbatim>\<open>z.map((val, i) => ... v[i])\<close>
  pairs each element with its index.
\<close>

definition generate_sample ::
  "SimulationParams \<Rightarrow> SeededRNG \<Rightarrow> (real list \<times> real list \<times> real list) \<times> SeededRNG"
where
  "generate_sample p g =
     (let ((u, v), g1) = generateCorrelatedNormals (sampleSize p) (endogeneity p) g;
          ((z, w), g2) = generateCorrelatedNormals (sampleSize p) 0 g1;
          x = map (\<lambda>(val, i). ivStrength p * val + v ! i) (zip z [0..<length z]);
          y = map (\<lambda>(val, i). betaTrue p * val + u ! i) (zip x [0..<length x])
      in ((x, y, z), g2))"

definition firstStageF :: "real list \<Rightarrow> real list \<Rightarrow> int \<Rightarrow> real" where
  "firstStageF z x n =
     (let piHat = estimateOLS z x;
          xPred = map (\<lambda>val. piHat * val) z;
          residuals = map (\<lambda>(val, i). val - xPred ! i) (zip x [0..<length x]);
          ssr = foldl (\<lambda>acc val. acc + val * val) 0 residuals;
          sst = variance x None * real_of_int n;
          rSquared = 1 - (ssr / sst);
          fStat = (rSquared * (real_of_int n - 2)) / (1 - rSquared)
      in fStat)"

definition replication ::
  "SimulationParams \<Rightarrow> SeededRNG \<Rightarrow> (real \<times> real \<times> real) \<times> SeededRNG"
where
  "replication p g =
     (let ((x, y, z), g') = generate_sample p g;
          betaOLS = estimateOLS x y;
          betaIV = estimateIV x y z;
          fStat = firstStageF z x (sampleSize p)
      in ((betaOLS, betaIV, fStat), g'))"

definition batchSize :: "SimulationParams \<Rightarrow> nat" where
  "batchSize p = (if sampleSize p > 10000 then 1 else 10)"

text \<open>
  The loop and its environment. JavaScript runs the body of the loop without interruption
  between two \<^verbatim>\<open>await\<close>s, so \<^verbatim>\<open>signal.aborted\<close> can only change before the call or while
  the run is suspended in step 2 of an iteration with \<^verbatim>\<open>r % batchSize === 0\<close>. The
  environment is therefore the flag on entry and a function \<open>req\<close>: \<open>req r\<close> says that
  \<^verbatim>\<open>abort()\<close> is called during the suspension of iteration \<open>r\<close>. An aborted signal stays
  aborted. \<^verbatim>\<open>checkPause\<close> is taken to return (a pause ends); it touches nothing the loop
  reads.

  The state of the loop is the generator, the three arrays and the flag, with a log of what
  the loop did: reading the flag, suspending, and running one replication. The log is not in
  the source; it is there to state when each of these happens. \<open>run_loop\<close> returns the
  message of the exception thrown, if any, and the state reached.
\<close>

datatype event = CheckCancel nat | YieldPause nat | Replicate nat

record loop_state =
  ls_rng :: SeededRNG
  ls_ols :: "real list"
  ls_iv :: "real list"
  ls_fs :: "real list"
  ls_aborted :: bool
  ls_events :: "event list"

function run_loop ::
  "SimulationParams \<Rightarrow> (nat \<Rightarrow> bool) \<Rightarrow> nat \<Rightarrow> loop_state \<Rightarrow> string option \<times> loop_state"
where
  "run_loop p req r st =
     (if int r < replications p then
        (let st1 = st\<lparr>ls_events := ls_events st @ [CheckCancel r]\<rparr>
         in if ls_aborted st1 then (Some ''Simulation Cancelled'', st1)
            else
              (let st2 = (if r mod batchSize p = 0
                          then st1\<lparr>ls_aborted := ls_aborted st1 \<or> req r,
                                   ls_events := ls_events st1 @ [YieldPause r]\<rparr>
                          else st1);
                   ((betaOLS, betaIV, fStat), g') = replication p (ls_rng st2);
                   st3 = st2\<lparr>ls_rng := g',
                             ls_ols := ls_ols st2 @ [betaOLS],
                             ls_iv := ls_iv st2 @ [betaIV],
                             ls_fs := ls_fs st2 @ [fStat],
                             ls_events := ls_events st2 @ [Replicate r]\<rparr>
               in run_loop p req (Suc r) st3))
      else (None, st))"
  by pat_completeness auto
termination
  by (relation "measure (\<lambda>(p, req, r, st). nat (replications p) - r)") auto

definition initial_state :: "SimulationParams \<Rightarrow> bool \<Rightarrow> loop_state" where
  "initial_state p aborted0 =
     \<lparr>ls_rng = new_SeededRNG (seed p), ls_ols = [], ls_iv = [], ls_fs = [],
      ls_aborted = aborted0, ls_events = []\<rparr>"

definition runMonteCarloAsync ::
  "SimulationParams \<Rightarrow> bool \<Rightarrow> (nat \<Rightarrow> bool) \<Rightarrow> string + SimulationResult"
where
  "runMonteCarloAsync p aborted0 req =
     (case run_loop p req 0 (initial_state p aborted0) of
        (Some msg, st) \<Rightarrow> Inl msg
      | (None, st) \<Rightarrow>
          (let olsMean = mean (ls_ols st);
               ivMean = mean (ls_iv st)
           in Inr \<lparr>olsEstimates = ls_ols st,
                   ivEstimates = ls_iv st,
                   fStats = ls_fs st,
                   olsBias = olsMean - betaTrue p,
                   ivBias = ivMean - betaTrue p,
                   olsVariance = variance (ls_ols st) None,
                   ivVariance = variance (ls_iv st) None\<rparr>))"

definition run_events :: "SimulationParams \<Rightarrow> bool \<Rightarrow> (nat \<Rightarrow> bool) \<Rightarrow> event list" where
  "run_events p aborted0 req = ls_events (snd (run_loop p req 0 (initial_state p aborted0)))"

text \<open>Two environments: no request at all, and a request during every suspension.\<close>

definition no_request :: "nat \<Rightarrow> bool" where
  "no_request r = False"

definition request_always :: "nat \<Rightarrow> bool" where
  "request_always r = True"

section \<open>Histogram binner\<close>

text \<open>
  \<^verbatim>\<open>allValues.sort((a, b) => a - b)\<close> sorts ascending. \<^verbatim>\<open>a[i] ?? d\<close> is \<^verbatim>\<open>a[i]\<close> when
  the index is in range and \<^verbatim>\<open>d\<close> otherwise. The loop \<^verbatim>\<open>for (let i = 0; i < bins; i++)\<close>
  pushes one bin for each \<open>i\<close> in \<open>0 ..< nat bins\<close>, in this order.
\<close>

definition createHistogramData :: "real list \<Rightarrow> real list \<Rightarrow> int \<Rightarrow> BinData list" where
  "createHistogramData ols iv bins =
     (let allValues = ols @ iv
      in if length allValues = 0 then []
         else
           (let sorted = sort allValues;
                iLo = nat \<lfloor>real (length sorted) * 0.02\<rfloor>;
                iHi = nat \<lfloor>real (length sorted) * 0.98\<rfloor>;
                minVal = (if iLo < length sorted then sorted ! iLo else Min (set sorted));
                maxVal = (if iHi < length sorted then sorted ! iHi else Max (set sorted));
                range = maxVal - minVal;
                start = minVal - range * 0.1;
                endV = maxVal + range * 0.1;
                step = (endV - start) / real_of_int bins
            in map (\<lambda>i.
                 (let rStart = start + real i * step;
                      rEnd = start + (real i + 1) * step;
                      mid = (rStart + rEnd) / 2;
                      olsCount = length (filter (\<lambda>v. v \<ge> rStart \<and> v < rEnd) ols);
                      ivCount = length (filter (\<lambda>v. v \<ge> rStart \<and> v < rEnd) iv)
                  in \<lparr>rangeStart = rStart,
                      rangeEnd = rEnd,
                      olsFrequency =
                        (if length ols \<noteq> 0 then real olsCount / real (length ols) else 0),
                      ivFrequency =
                        (if length iv \<noteq> 0 then real ivCount / real (length iv) else 0),
                      midpoint = mid\<rparr>))
                 [0..<nat bins]))"

text \<open>
  \<^verbatim>\<open>createHistogramData\<close> once more, with the rounding of every operation and of the
  literals \<^verbatim>\<open>0.02\<close>, \<^verbatim>\<open>0.98\<close> and \<^verbatim>\<open>0.1\<close> explicit; \<^verbatim>\<open>i + 1\<close> is an exact
  integer.
\<close>

definition createHistogramData_rd ::
  "(real \<Rightarrow> real) \<Rightarrow> real list \<Rightarrow> real list \<Rightarrow> int \<Rightarrow> BinData list"
where
  "createHistogramData_rd rd ols iv bins =
     (let allValues = ols @ iv
      in if length allValues = 0 then []
         else
           (let sorted = sort allValues;
                iLo = nat \<lfloor>rd (real (length sorted) * rd 0.02)\<rfloor>;
                iHi = nat \<lfloor>rd (real (length sorted) * rd 0.98)\<rfloor>;
                minVal = (if iLo < length sorted then sorted ! iLo else Min (set sorted));
                maxVal = (if iHi < length sorted then sorted ! iHi else Max (set sorted));
                range = rd (maxVal - minVal);
                start = rd (minVal - rd (range * rd 0.1));
                endV = rd (maxVal + rd (range * rd 0.1));
                step = rd (rd (endV - start) / real_of_int bins)
            in map (\<lambda>i.
                 (let rStart = rd (start + rd (real i * step));
                      rEnd = rd (start + rd ((real i + 1) * step));
                      mid = rd (rd (rStart + rEnd) / 2);
                      olsCount = length (filter (\<lambda>v. v \<ge> rStart \<and> v < rEnd) ols);
                      ivCount = length (filter (\<lambda>v. v \<ge> rStart \<and> v < rEnd) iv)
                  in \<lparr>rangeStart = rStart,
                      rangeEnd = rEnd,
                      olsFrequency =
                        (if length ols \<noteq> 0 then rd (real olsCount / real (length ols)) else 0),
                      ivFrequency =
                        (if length iv \<noteq> 0 then rd (real ivCount / real (length iv)) else 0),
                      midpoint = mid\<rparr>))
                 [0..<nat bins]))"

section \<open>Quantities of the specification\<close>

text \<open>
  The arithmetic mean of a sequence, and the sum over the indices of \<open>a\<close> of the
  cross-products \<open>(a\<^sub>i - mean a) (b\<^sub>i - mean b)\<close>. The quotient of two such sums is what
  the specification calls a ratio of covariances: the factor \<open>1 / n\<close> cancels.
\<close>

definition spec_mean :: "real list \<Rightarrow> real" where
  "spec_mean a = sum_list a / real (length a)"

definition cross_sum :: "real list \<Rightarrow> real list \<Rightarrow> real" where
  "cross_sum a b = (\<Sum>i<length a. (a ! i - spec_mean a) * (b ! i - spec_mean b))"

text \<open>
  The numerator and the denominator that the loop of \<^verbatim>\<open>estimateIV\<close> accumulates, each on
  its own, and the covariance of two sequences with the usual normalisations.
\<close>

definition iv_den :: "(real \<Rightarrow> real) \<Rightarrow> real list \<Rightarrow> real list \<Rightarrow> real" where
  "iv_den rd x z =
     foldl (\<lambda>den i. rd (den + rd (rd (z ! i - mean_rd rd z) * rd (x ! i - mean_rd rd x))))
       0 [0..<length z]"

definition iv_num :: "(real \<Rightarrow> real) \<Rightarrow> real list \<Rightarrow> real list \<Rightarrow> real" where
  "iv_num rd y z =
     foldl (\<lambda>num i. rd (num + rd (rd (z ! i - mean_rd rd z) * rd (y ! i - mean_rd rd y))))
       0 [0..<length z]"

definition sample_covariance :: "real list \<Rightarrow> real list \<Rightarrow> real" where
  "sample_covariance a b = cross_sum a b / (real (length a) - 1)"

definition population_covariance :: "real list \<Rightarrow> real list \<Rightarrow> real" where
  "population_covariance a b = cross_sum a b / real (length a)"

text \<open>
  The sample of one replication as the specification describes it: \<open>(u, v)\<close> is what the
  first call of the generator returns for the configured \<open>\<rho>\<close>, \<open>z\<close> is the first
  sequence of a second call with \<open>\<rho> = 0\<close> on the generator the first call leaves behind.
\<close>

definition first_call :: "SimulationParams \<Rightarrow> SeededRNG \<Rightarrow> (real list \<times> real list) \<times> SeededRNG" where
  "first_call p g = generateCorrelatedNormals (sampleSize p) (endogeneity p) g"

definition second_call :: "SimulationParams \<Rightarrow> SeededRNG \<Rightarrow> (real list \<times> real list) \<times> SeededRNG" where
  "second_call p g = generateCorrelatedNormals (sampleSize p) 0 (snd (first_call p g))"

definition sample_of :: "SimulationParams \<Rightarrow> SeededRNG \<Rightarrow> real list \<times> real list \<times> real list" where
  "sample_of p g = fst (generate_sample p g)"




text \<open>
  The histogram's range as the specification describes it: both sequences merged and
  sorted ascending, the elements at the truncated 2nd and 98th percentile positions as raw
  bounds, the range between them extended by a tenth of its width on each side, and the
  width of one of \<open>bins\<close> equal parts of the extended range. \<open>in_bin lo hi vs\<close> is the
  fraction of \<open>vs\<close> in \<open>[lo, hi)\<close>, 0 for an empty \<open>vs\<close>.
\<close>

definition merged :: "real list \<Rightarrow> real list \<Rightarrow> real list" where
  "merged ols iv = sort (ols @ iv)"

definition hist_min :: "real list \<Rightarrow> real list \<Rightarrow> real" where
  "hist_min ols iv = merged ols iv ! nat \<lfloor>real (length (merged ols iv)) * 0.02\<rfloor>"

definition hist_max :: "real list \<Rightarrow> real list \<Rightarrow> real" where
  "hist_max ols iv = merged ols iv ! nat \<lfloor>real (length (merged ols iv)) * 0.98\<rfloor>"

definition hist_start :: "real list \<Rightarrow> real list \<Rightarrow> real" where
  "hist_start ols iv = hist_min ols iv - (hist_max ols iv - hist_min ols iv) * 0.1"

definition hist_end :: "real list \<Rightarrow> real list \<Rightarrow> real" where
  "hist_end ols iv = hist_max ols iv + (hist_max ols iv - hist_min ols iv) * 0.1"

definition hist_step :: "real list \<Rightarrow> real list \<Rightarrow> int \<Rightarrow> real" where
  "hist_step ols iv bins = (hist_end ols iv - hist_start ols iv) / real_of_int bins"

definition in_bin :: "real \<Rightarrow> real \<Rightarrow> real list \<Rightarrow> real" where
  "in_bin lo hi vs =
     (if length vs \<noteq> 0
      then real (length (filter (\<lambda>v. v \<ge> lo \<and> v < hi) vs)) / real (length vs) else 0)"

text \<open>
  Edge \<open>k\<close> of the histogram as the code computes it, \<open>start + k * step\<close> with every
  operation rounded by \<open>rd\<close>.
\<close>

definition hist_edge_rd ::
  "(real \<Rightarrow> real) \<Rightarrow> real list \<Rightarrow> real list \<Rightarrow> int \<Rightarrow> nat \<Rightarrow> real"
where
  "hist_edge_rd rd ols iv bins k =
     (let sorted = sort (ols @ iv);
          iLo = nat \<lfloor>rd (real (length sorted) * rd 0.02)\<rfloor>;
          iHi = nat \<lfloor>rd (real (length sorted) * rd 0.98)\<rfloor>;
          minVal = (if iLo < length sorted then sorted ! iLo else Min (set sorted));
          maxVal = (if iHi < length sorted then sorted ! iHi else Max (set sorted));
          range = rd (maxVal - minVal);
          start = rd (minVal - rd (range * rd 0.1));
          endV = rd (maxVal + rd (range * rd 0.1));
          step = rd (rd (endV - start) / real_of_int bins)
      in rd (start + rd (real k * step)))"

section \<open>Auxiliary notions for the driver\<close>

text \<open>
  \<open>loop_body\<close> is the state after one iteration of the loop that did not throw.
  \<open>cancel_observed p req r a\<close> says that a loop standing at index \<open>r\<close> with flag \<open>a\<close>
  will read the flag as set at the start of some iteration: either it is set now and an
  iteration remains, or a request arrives during a suspension that is followed by one more
  iteration. \<open>cancel_seen\<close> is the same for a whole run.
\<close>

definition loop_body :: "SimulationParams \<Rightarrow> (nat \<Rightarrow> bool) \<Rightarrow> nat \<Rightarrow> loop_state \<Rightarrow> loop_state" where
  "loop_body p req r st =
     \<lparr>ls_rng = snd (replication p (ls_rng st)),
      ls_ols = ls_ols st @ [fst (fst (replication p (ls_rng st)))],
      ls_iv = ls_iv st @ [fst (snd (fst (replication p (ls_rng st))))],
      ls_fs = ls_fs st @ [snd (snd (fst (replication p (ls_rng st))))],
      ls_aborted = (if r mod batchSize p = 0 then ls_aborted st \<or> req r else ls_aborted st),
      ls_events = ls_events st @ [CheckCancel r]
                    @ (if r mod batchSize p = 0 then [YieldPause r] else []) @ [Replicate r]\<rparr>"

definition cancel_observed :: "SimulationParams \<Rightarrow> (nat \<Rightarrow> bool) \<Rightarrow> nat \<Rightarrow> bool \<Rightarrow> bool" where
  "cancel_observed p req r a \<longleftrightarrow>
     (a \<and> int r < replications p)
     \<or> (\<exists>j. r \<le> j \<and> j mod batchSize p = 0 \<and> req j \<and> int j + 1 < replications p)"

definition cancel_seen :: "SimulationParams \<Rightarrow> bool \<Rightarrow> (nat \<Rightarrow> bool) \<Rightarrow> bool" where
  "cancel_seen p aborted0 req \<longleftrightarrow>
     (aborted0 \<and> 0 < replications p)
     \<or> (\<exists>j. j mod batchSize p = 0 \<and> req j \<and> int j + 1 < replications p)"

text \<open>
  The part of the state that a result is computed from, and \<open>k\<close> replications applied to
  it one after the other; \<open>rng_after p k g\<close> is the generator after \<open>k\<close> replications.
\<close>

type_synonym run_data = "SeededRNG \<times> real list \<times> real list \<times> real list"

definition data_of :: "loop_state \<Rightarrow> run_data" where
  "data_of st = (ls_rng st, ls_ols st, ls_iv st, ls_fs st)"

fun reps :: "SimulationParams \<Rightarrow> nat \<Rightarrow> run_data \<Rightarrow> run_data" where
  "reps p 0 d = d"
| "reps p (Suc k) (g, os, is, fs) =
     (case replication p g of
        ((a, b, c), g') \<Rightarrow> reps p k (g', os @ [a], is @ [b], fs @ [c]))"


text \<open>
  What one iteration that runs to its end adds to the log, the state in which a run ends,
  and the number of replications it completed.
\<close>

definition iteration_events :: "SimulationParams \<Rightarrow> nat \<Rightarrow> event list" where
  "iteration_events p r =
     [CheckCancel r] @ (if r mod batchSize p = 0 then [YieldPause r] else []) @ [Replicate r]"

definition final_state :: "SimulationParams \<Rightarrow> bool \<Rightarrow> (nat \<Rightarrow> bool) \<Rightarrow> loop_state" where
  "final_state p aborted0 req = snd (run_loop p req 0 (initial_state p aborted0))"

definition completed :: "SimulationParams \<Rightarrow> bool \<Rightarrow> (nat \<Rightarrow> bool) \<Rightarrow> nat" where
  "completed p aborted0 req = length (ls_ols (final_state p aborted0 req))"

text \<open>Parameters for the examples: sample size, replication count and \<open>\<rho>\<close> vary.\<close>

definition example_params :: "int \<Rightarrow> int \<Rightarrow> real \<Rightarrow> SimulationParams" where
  "example_params n r rho =
     \<lparr>sampleSize = n, replications = r, ivStrength = 1 / 2, endogeneity = rho,
      betaTrue = 1, seed = 12345\<rparr>"

section \<open>Rounding on examples\<close>

lemma round_double_at:
  assumes "2 powi k \<le> \<bar>x\<bar>" and "\<bar>x\<bar> < 2 powi (k + 1)"
  shows "round_double x = of_int (round_half_even (x / 2 powi (k - 52))) * 2 powi (k - 52)"
proof -
  have pos: "0 < \<bar>x\<bar>"
    using assms(1) by (smt (verit) zero_less_power_int)
  have a: "(2 :: real) powr real_of_int k = 2 powi k"
    by (simp add: powr_real_of_int')
  have b: "(2 :: real) powr (real_of_int k + 1) = 2 powi (k + 1)"
    using powr_real_of_int' [of 2 "k + 1"] by simp
  have "\<lfloor>log 2 \<bar>x\<bar>\<rfloor> = k"
    using assms pos by (simp add: floor_log_eq_powr_iff a b)
  with pos show ?thesis
    by (simp add: round_double_def Let_def)
qed

lemma round_double_0: "round_double 0 = 0"
  by (simp add: round_double_def)

text \<open>The roundings met when the histogram of \<open>[1, 2]\<close> and \<open>[3]\<close> with two bins is computed.\<close>

lemma round_double_hist_0: "round_double (1 / 50) = 5764607523034235 / 288230376151711744"
  using round_double_at [of "- 6" "1 / 50"]
  by (simp add: round_half_even_def power_int_minus)

lemma round_double_hist_1: "round_double (17293822569102705 / 288230376151711744) = 1080863910568919 / 18014398509481984"
  using round_double_at [of "- 5" "17293822569102705 / 288230376151711744"]
  by (simp add: round_half_even_def power_int_minus)

lemma round_double_hist_2: "round_double (49 / 50) = 2206763817411543 / 2251799813685248"
  using round_double_at [of "- 1" "49 / 50"]
  by (simp add: round_half_even_def power_int_minus)

lemma round_double_hist_3: "round_double (6620291452234629 / 2251799813685248) = 6620291452234629 / 2251799813685248"
  using round_double_at [of "1" "6620291452234629 / 2251799813685248"]
  by (simp add: round_half_even_def power_int_minus)

lemma round_double_hist_4: "round_double 2 = 2"
  using round_double_at [of "1" "2"]
  by (simp add: round_half_even_def power_int_minus)

lemma round_double_hist_5: "round_double (1 / 10) = 3602879701896397 / 36028797018963968"
  using round_double_at [of "- 4" "1 / 10"]
  by (simp add: round_half_even_def power_int_minus)

lemma round_double_hist_6: "round_double (3602879701896397 / 18014398509481984) = 3602879701896397 / 18014398509481984"
  using round_double_at [of "- 3" "3602879701896397 / 18014398509481984"]
  by (simp add: round_half_even_def power_int_minus)

lemma round_double_hist_7: "round_double (14411518807585587 / 18014398509481984) = 3602879701896397 / 4503599627370496"
  using round_double_at [of "- 1" "14411518807585587 / 18014398509481984"]
  by (simp add: round_half_even_def power_int_minus)

lemma round_double_hist_8: "round_double (57646075230342349 / 18014398509481984) = 3602879701896397 / 1125899906842624"
  using round_double_at [of "1" "57646075230342349 / 18014398509481984"]
  by (simp add: round_half_even_def power_int_minus)

lemma round_double_hist_9: "round_double (10808639105689191 / 4503599627370496) = 1351079888211149 / 562949953421312"
  using round_double_at [of "1" "10808639105689191 / 4503599627370496"]
  by (simp add: round_half_even_def power_int_minus)

lemma round_double_hist_10: "round_double (1351079888211149 / 1125899906842624) = 1351079888211149 / 1125899906842624"
  using round_double_at [of "0" "1351079888211149 / 1125899906842624"]
  by (simp add: round_half_even_def power_int_minus)

lemma round_double_hist_11: "round_double (3602879701896397 / 4503599627370496) = 3602879701896397 / 4503599627370496"
  using round_double_at [of "- 1" "3602879701896397 / 4503599627370496"]
  by (simp add: round_half_even_def power_int_minus)

lemma round_double_hist_12: "round_double (9007199254740993 / 4503599627370496) = 2"
  using round_double_at [of "1" "9007199254740993 / 4503599627370496"]
  by (simp add: round_half_even_def power_int_minus)

lemma round_double_hist_13: "round_double (1351079888211149 / 562949953421312) = 1351079888211149 / 562949953421312"
  using round_double_at [of "1" "1351079888211149 / 562949953421312"]
  by (simp add: round_half_even_def power_int_minus)

lemma round_double_hist_14: "round_double (14411518807585589 / 4503599627370496) = 3602879701896397 / 1125899906842624"
  using round_double_at [of "1" "14411518807585589 / 4503599627370496"]
  by (simp add: round_half_even_def power_int_minus)

lemmas round_double_hist = round_double_0 round_double_hist_0 round_double_hist_1 round_double_hist_2 round_double_hist_3 round_double_hist_4 round_double_hist_5 round_double_hist_6 round_double_hist_7 round_double_hist_8 round_double_hist_9 round_double_hist_10 round_double_hist_11 round_double_hist_12 round_double_hist_13 round_double_hist_14

text \<open>
  The roundings met when the denominator of the IV estimator is accumulated for
  \<open>x = [14784, 68672, -1089920]\<close> and \<open>z = [73280, 98368, 86720]\<close>.
\<close>

lemma round_double_iv_0: "round_double 73280 = 73280"
  using round_double_at [of "16" "73280"]
  by (simp add: round_half_even_def power_int_minus)

lemma round_double_iv_1: "round_double 171648 = 171648"
  using round_double_at [of "17" "171648"]
  by (simp add: round_half_even_def power_int_minus)

lemma round_double_iv_2: "round_double 258368 = 258368"
  using round_double_at [of "17" "258368"]
  by (simp add: round_half_even_def power_int_minus)

lemma round_double_iv_3: "round_double (258368 / 3) = 5918304588442283 / 68719476736"
  using round_double_at [of "16" "258368 / 3"]
  by (simp add: round_half_even_def power_int_minus)

lemma round_double_iv_4: "round_double 14784 = 14784"
  using round_double_at [of "13" "14784"]
  by (simp add: round_half_even_def power_int_minus)

lemma round_double_iv_5: "round_double 83456 = 83456"
  using round_double_at [of "16" "83456"]
  by (simp add: round_half_even_def power_int_minus)

lemma round_double_iv_6: "round_double (- 1006464) = - 1006464"
  using round_double_at [of "19" "- 1006464"]
  by (simp add: round_half_even_def power_int_minus)

lemma round_double_iv_7: "round_double (- 335488) = - 335488"
  using round_double_at [of "18" "- 335488"]
  by (simp add: round_half_even_def power_int_minus)

lemma round_double_iv_8: "round_double (- (882541333228203 / 68719476736)) = - (882541333228203 / 68719476736)"
  using round_double_at [of "13" "- (882541333228203 / 68719476736)"]
  by (simp add: round_half_even_def power_int_minus)

lemma round_double_iv_9: "round_double 350272 = 350272"
  using round_double_at [of "18" "350272"]
  by (simp add: round_half_even_def power_int_minus)

lemma round_double_iv_10: "round_double (- (4830148716757955019 / 1073741824)) = - (1179235526552235 / 262144)"
  using round_double_at [of "32" "- (4830148716757955019 / 1073741824)"]
  by (simp add: round_half_even_def power_int_minus)

lemma round_double_iv_11: "round_double (- (1179235526552235 / 262144)) = - (1179235526552235 / 262144)"
  using round_double_at [of "32" "- (1179235526552235 / 262144)"]
  by (simp add: round_half_even_def power_int_minus)

lemma round_double_iv_12: "round_double (841492899124565 / 68719476736) = 841492899124565 / 68719476736"
  using round_double_at [of "13" "841492899124565 / 68719476736"]
  by (simp add: round_half_even_def power_int_minus)

lemma round_double_iv_13: "round_double 404160 = 404160"
  using round_double_at [of "18" "404160"]
  by (simp add: round_half_even_def power_int_minus)

lemma round_double_iv_14: "round_double (5314027657971627975 / 1073741824) = 2594740067368959 / 524288"
  using round_double_at [of "32" "5314027657971627975 / 1073741824"]
  by (simp add: round_half_even_def power_int_minus)

lemma round_double_iv_15: "round_double (236269014264489 / 524288) = 236269014264489 / 524288"
  using round_double_at [of "28" "236269014264489 / 524288"]
  by (simp add: round_half_even_def power_int_minus)

lemma round_double_iv_16: "round_double (41048434103637 / 68719476736) = 41048434103637 / 68719476736"
  using round_double_at [of "9" "41048434103637 / 68719476736"]
  by (simp add: round_half_even_def power_int_minus)

lemma round_double_iv_17: "round_double (- 754432) = - 754432"
  using round_double_at [of "19" "- 754432"]
  by (simp add: round_half_even_def power_int_minus)

lemma round_double_iv_18: "round_double (- (120969735303418239 / 268435456)) = - (945076057057955 / 2097152)"
  using round_double_at [of "28" "- (120969735303418239 / 268435456)"]
  by (simp add: round_half_even_def power_int_minus)

lemma round_double_iv_19: "round_double (1 / 2097152) = 1 / 2097152"
  using round_double_at [of "- 21" "1 / 2097152"]
  by (simp add: round_half_even_def power_int_minus)

lemmas round_double_iv = round_double_0 round_double_iv_0 round_double_iv_1 round_double_iv_2 round_double_iv_3 round_double_iv_4 round_double_iv_5 round_double_iv_6 round_double_iv_7 round_double_iv_8 round_double_iv_9 round_double_iv_10 round_double_iv_11 round_double_iv_12 round_double_iv_13 round_double_iv_14 round_double_iv_15 round_double_iv_16 round_double_iv_17 round_double_iv_18 round_double_iv_19

text \<open>
  The roundings met when the IV estimate is computed for \<open>x = [0, 2\<^sup>-\<^sup>3\<^sup>0, 2\<^sup>-\<^sup>2\<^sup>9]\<close> and
  \<open>y = z = [0, 1, 2]\<close>: only the literal \<^verbatim>\<open>1e-9\<close> is rounded.
\<close>

lemma round_double_cov_0: "round_double (1 / 1073741824) = 1 / 1073741824"
  using round_double_at [of "- 30" "1 / 1073741824"]
  by (simp add: round_half_even_def power_int_minus)

lemma round_double_cov_1: "round_double (3 / 1073741824) = 3 / 1073741824"
  using round_double_at [of "- 29" "3 / 1073741824"]
  by (simp add: round_half_even_def power_int_minus)

lemma round_double_cov_2: "round_double 1 = 1"
  using round_double_at [of "0" "1"]
  by (simp add: round_half_even_def power_int_minus)

lemma round_double_cov_3: "round_double 3 = 3"
  using round_double_at [of "1" "3"]
  by (simp add: round_half_even_def power_int_minus)

lemma round_double_cov_4: "round_double (- 1) = - 1"
  using round_double_at [of "0" "- 1"]
  by (simp add: round_half_even_def power_int_minus)

lemma round_double_cov_5: "round_double (- (1 / 1073741824)) = - (1 / 1073741824)"
  using round_double_at [of "- 30" "- (1 / 1073741824)"]
  by (simp add: round_half_even_def power_int_minus)

lemma round_double_cov_7: "round_double (1 / 536870912) = 1 / 536870912"
  using round_double_at [of "- 29" "1 / 536870912"]
  by (simp add: round_half_even_def power_int_minus)

lemma round_double_cov_8: "round_double (1 / 1000000000) = 4835703278458517 / 4835703278458516698824704"
  using round_double_at [of "- 30" "1 / 1000000000"]
  by (simp add: round_half_even_def power_int_minus)

lemma round_double_cov_9: "round_double 1073741824 = 1073741824"
  using round_double_at [of "30" "1073741824"]
  by (simp add: round_half_even_def power_int_minus)

lemmas round_double_cov = round_double_0 round_double_hist round_double_iv round_double_cov_0 round_double_cov_1 round_double_cov_2 round_double_cov_3 round_double_cov_4 round_double_cov_5 round_double_cov_7 round_double_cov_8 round_double_cov_9

text \<open>The roundings of the generator's state on its first two draws and past \<open>2\<^sup>5\<^sup>3\<close>.\<close>

lemma round_double_state_1: "round_double 1831578158 = 1831578158"
  using round_double_at [of "30" "1831578158"]
  by (simp add: round_half_even_def power_int_minus)

lemma round_double_state_2: "round_double 3663143971 = 3663143971"
  using round_double_at [of "31" "3663143971"]
  by (simp add: round_half_even_def power_int_minus)

lemma round_double_state_late: "round_double 9007201092551225 = 9007201092551224"
  using round_double_at [of "53" "9007201092551225"]
  by (simp add: round_half_even_def power_int_minus)

section \<open>The generator on an example\<close>

text \<open>
  The first two values drawn from seed 12345, as fractions of \<open>2\<^sup>3\<^sup>2\<close>, and draw 4917760,
  the first whose state is rounded: the exact sum 9007201092551225 is odd, the state becomes 9007201092551224.
\<close>

lemma rng_next_example:
  "rng_next (new_SeededRNG 12345) = (4207900869 / 4294967296, \<lparr>state = 1831578158\<rparr>)"
  "rng_next \<lparr>state = 1831578158\<rparr> = (1317490944 / 4294967296, \<lparr>state = 3663143971\<rparr>)"
  "rng_next \<lparr>state = 9007199260985412\<rparr> = (232419860 / 4294967296, \<lparr>state = 9007201092551224\<rparr>)"
  by (simp_all add: rng_next_def new_SeededRNG_def Let_def
        round_double_state_1 round_double_state_2 round_double_state_late)

section \<open>Estimators: loops as sums\<close>

lemma foldl_plus_sum_list: "foldl (\<lambda>a b. a + b) s arr = s + sum_list (arr :: real list)"
  by (induction arr arbitrary: s) simp_all

lemma mean_spec_mean: "mean arr = spec_mean arr"
  by (simp add: mean_def spec_mean_def foldl_plus_sum_list)

lemma foldl_pair_sums:
  "foldl (\<lambda>(num, den) i. (num + f i, den + g i)) (a, b) [0..<n]
     = (a + (\<Sum>i<n. f i), b + (\<Sum>i<n. (g i :: real)))"
  for f :: "nat \<Rightarrow> real"
  by (induction n arbitrary: a b) simp_all


lemma estimateIV_sums:
  "estimateIV x y z =
     (let num = (\<Sum>i<length x. (z ! i - spec_mean z) * (y ! i - spec_mean y));
          den = (\<Sum>i<length x. (z ! i - spec_mean z) * (x ! i - spec_mean x))
      in if \<bar>den\<bar> < 1 / 10 ^ 9 then 0 else num / den)"
  by (simp add: estimateIV_def Let_def foldl_pair_sums mean_spec_mean)

section \<open>Claims about the IV estimator\<close>

lemma foldl_pair_split:
  "foldl (\<lambda>(a, b) i. (F a i, G b i)) (a0, b0) xs = (foldl F a0 xs, foldl G b0 xs)"
  by (induction xs arbitrary: a0 b0) simp_all

lemma foldl_add_sum_upt:
  "foldl (\<lambda>a i. a + f i) s [0..<n] = s + (\<Sum>i<n. (f i :: real))"
  by (induction n arbitrary: s) simp_all

lemma mean_rd_exact: "mean_rd (\<lambda>v. v) arr = spec_mean arr"
  by (simp add: mean_rd_def spec_mean_def foldl_plus_sum_list)

lemma estimateIV_cross:
  assumes "length y = length x" and "length z = length x"
  shows "estimateIV x y z =
           (if \<bar>cross_sum z x\<bar> < 1 / 10 ^ 9 then 0 else cross_sum z y / cross_sum z x)"
  using assms by (simp add: estimateIV_sums cross_sum_def Let_def)

text \<open>
  Rounding matters for the guard: for these \<open>x\<close> and \<open>z\<close> the exact cross-product sum
  is 0, while the denominator accumulated in doubles is \<open>2\<^sup>-\<^sup>2\<^sup>1\<close>, above the threshold.
\<close>

lemma iv_den_rounded_example:
  "cross_sum [73280, 98368, 86720] [14784, 68672, - 1089920] = 0"
  "iv_den round_double [14784, 68672, - 1089920] [73280, 98368, 86720] = 1 / 2097152"
  by (simp_all add: cross_sum_def spec_mean_def lessThan_Suc numeral_3_eq_3
        iv_den_def mean_rd_def upt_rec round_double_iv)

text \<open>The estimate for \<open>x = [0, 2\<^sup>-\<^sup>3\<^sup>0, 2\<^sup>-\<^sup>2\<^sup>9]\<close> and \<open>y = z = [0, 1, 2]\<close> in doubles.\<close>

lemma estimateIV_rd_example:
  "estimateIV_rd round_double [0, 1 / 1073741824, 1 / 536870912] [0, 1, 2] [0, 1, 2] = 1073741824"
  by (simp add: estimateIV_rd_def mean_rd_def Let_def upt_rec round_double_cov)

text \<open>
  C3 as stated fails: the guard compares the un-normalised cross-product sum of \<open>z\<close> and
  \<open>x\<close> with \<open>10\<^sup>-\<^sup>9\<close>, not their covariance. For \<open>z = y = [0, 1, 2]\<close> and
  \<open>x = [0, 2\<^sup>-\<^sup>3\<^sup>0, 2\<^sup>-\<^sup>2\<^sup>9]\<close> the covariance is \<open>2\<^sup>-\<^sup>3\<^sup>0\<close> (dividing by \<open>n - 1\<close>) or
  \<open>2\<^sup>-\<^sup>2\<^sup>9 / 3\<close> (dividing by \<open>n\<close>), both below \<open>10\<^sup>-\<^sup>9\<close>, and the estimate is \<open>2\<^sup>3\<^sup>0\<close>, not
  0, in exact arithmetic and in doubles alike.
\<close>

theorem covariance_threshold_counterexample:
  "\<bar>sample_covariance [0, 1, 2] [0, 1 / 1073741824, 1 / 536870912]\<bar> < 1 / 10 ^ 9
   \<and> \<bar>population_covariance [0, 1, 2] [0, 1 / 1073741824, 1 / 536870912]\<bar> < 1 / 10 ^ 9
   \<and> estimateIV [0, 1 / 1073741824, 1 / 536870912] [0, 1, 2] [0, 1, 2] = 1073741824
   \<and> estimateIV_rd round_double [0, 1 / 1073741824, 1 / 536870912] [0, 1, 2] [0, 1, 2]
       = 1073741824"
proof -
  have c2: "cross_sum [0, 1, 2] [0, 1 / 1073741824, 1 / 536870912] = 1 / 536870912"
    by (simp add: cross_sum_def spec_mean_def lessThan_Suc numeral_3_eq_3)
  have c3: "cross_sum [0, 1, 2] [0, 1, 2] = 2"
    by (simp add: cross_sum_def spec_mean_def lessThan_Suc numeral_3_eq_3)
  show ?thesis
    by (simp add: sample_covariance_def population_covariance_def estimateIV_cross c2 c3
          estimateIV_rd_example)
qed

text \<open>
  C3, amended. For sequences of one length and any rounding \<open>rd\<close>, \<open>estimateIV\<close> returns
  exactly 0 whenever the magnitude of the denominator its loop accumulates is below the
  double \<^verbatim>\<open>1e-9\<close>, and the quotient of the accumulated numerator by that denominator
  otherwise. The denominator is computed from \<open>z\<close> and \<open>x\<close> alone, so the guard does not
  depend on \<open>y\<close>. In exact arithmetic the denominator is the cross-product sum of \<open>z\<close>
  and \<open>x\<close> about their means and the numerator that of \<open>z\<close> and \<open>y\<close>.
\<close>

theorem estimateIV_denominator_guard:
  assumes "length y = length x" and "length z = length x"
  shows "estimateIV_rd rd x y z =
           (if \<bar>iv_den rd x z\<bar> < rd (1 / 10 ^ 9) then 0 else rd (iv_num rd y z / iv_den rd x z))
       \<and> estimateIV_rd (\<lambda>v. v) x y z = estimateIV x y z
       \<and> iv_den (\<lambda>v. v) x z = cross_sum z x
       \<and> iv_num (\<lambda>v. v) y z = cross_sum z y"
proof -
  have "estimateIV_rd rd x y z =
           (if \<bar>iv_den rd x z\<bar> < rd (1 / 10 ^ 9) then 0 else rd (iv_num rd y z / iv_den rd x z))"
    using assms
    by (simp add: estimateIV_rd_def Let_def iv_den_def iv_num_def
          foldl_pair_split [of "\<lambda>num i. rd (num + rd (rd (z ! i - mean_rd rd z) * rd (y ! i - mean_rd rd y)))"
                               "\<lambda>den i. rd (den + rd (rd (z ! i - mean_rd rd z) * rd (x ! i - mean_rd rd x)))"])
  moreover have d: "iv_den (\<lambda>v. v) x z = cross_sum z x"
    by (simp add: iv_den_def cross_sum_def mean_rd_exact foldl_add_sum_upt)
  moreover have n: "iv_num (\<lambda>v. v) y z = cross_sum z y"
    by (simp add: iv_num_def cross_sum_def mean_rd_exact foldl_add_sum_upt)
  moreover have "estimateIV_rd (\<lambda>v. v) x y z = estimateIV x y z"
    using assms
    by (simp add: estimateIV_rd_def estimateIV_def mean_rd_exact mean_spec_mean)
  ultimately show ?thesis by simp
qed

text \<open>
  C3, witness: with \<open>z = y = [0, 1, 2]\<close>, the regressor \<open>[0, 2\<^sup>-\<^sup>3\<^sup>2, 2\<^sup>-\<^sup>3\<^sup>1]\<close> has the
  denominator \<open>2\<^sup>-\<^sup>3\<^sup>1\<close>, not zero and below the threshold, and the estimate is 0 although
  the numerator is 2; the regressor \<open>[0, 2\<^sup>-\<^sup>3\<^sup>0, 2\<^sup>-\<^sup>2\<^sup>9]\<close> has the denominator \<open>2\<^sup>-\<^sup>2\<^sup>9\<close>,
  above the threshold, and the estimate is the quotient \<open>2\<^sup>3\<^sup>0\<close>.
\<close>

theorem estimateIV_denominator_guard_witness:
  "length [0, 1, 2 :: real] = length [0, 1 / 4294967296, 1 / 2147483648 :: real]
   \<and> iv_den (\<lambda>v. v) [0, 1 / 4294967296, 1 / 2147483648] [0, 1, 2] = 1 / 2147483648
   \<and> iv_num (\<lambda>v. v) [0, 1, 2] [0, 1, 2] = 2
   \<and> estimateIV [0, 1 / 4294967296, 1 / 2147483648] [0, 1, 2] [0, 1, 2] = 0
   \<and> iv_den (\<lambda>v. v) [0, 1 / 1073741824, 1 / 536870912] [0, 1, 2] = 1 / 536870912
   \<and> estimateIV [0, 1 / 1073741824, 1 / 536870912] [0, 1, 2] [0, 1, 2] = 1073741824"
proof -
  have c1: "cross_sum [0, 1, 2] [0, 1 / 4294967296, 1 / 2147483648] = 1 / 2147483648"
    by (simp add: cross_sum_def spec_mean_def lessThan_Suc numeral_3_eq_3)
  have c2: "cross_sum [0, 1, 2] [0, 1 / 1073741824, 1 / 536870912] = 1 / 536870912"
    by (simp add: cross_sum_def spec_mean_def lessThan_Suc numeral_3_eq_3)
  have c3: "cross_sum [0, 1, 2] [0, 1, 2] = 2"
    by (simp add: cross_sum_def spec_mean_def lessThan_Suc numeral_3_eq_3)
  let ?x1 = "[0, 1 / 4294967296, 1 / 2147483648 :: real]"
  let ?x2 = "[0, 1 / 1073741824, 1 / 536870912 :: real]"
  let ?y = "[0, 1, 2 :: real]"
  have l1: "length ?y = length ?x1" and l2: "length ?y = length ?x2" by simp_all
  note t1 = estimateIV_denominator_guard [OF l1 l1, of "\<lambda>v. v"]
  note t2 = estimateIV_denominator_guard [OF l2 l2, of "\<lambda>v. v"]
  have d1: "iv_den (\<lambda>v. v) ?x1 ?y = 1 / 2147483648"
    using t1 [THEN conjunct2, THEN conjunct2, THEN conjunct1] c1 by (simp only:)
  have d2: "iv_den (\<lambda>v. v) ?x2 ?y = 1 / 536870912"
    using t2 [THEN conjunct2, THEN conjunct2, THEN conjunct1] c2 by (simp only:)
  have n: "iv_num (\<lambda>v. v) ?y ?y = 2"
    using t1 [THEN conjunct2, THEN conjunct2, THEN conjunct2] c3 by (simp only:)
  have e1: "estimateIV ?x1 ?y ?y = 0"
    unfolding t1 [THEN conjunct2, THEN conjunct1, symmetric] t1 [THEN conjunct1] d1 n
    by simp
  have e2: "estimateIV ?x2 ?y ?y = 1073741824"
    unfolding t2 [THEN conjunct2, THEN conjunct1, symmetric] t2 [THEN conjunct1] d2 n
    by simp
  show ?thesis
    using d1 d2 n e1 e2 by simp
qed

section \<open>The driver's loop\<close>

declare run_loop.simps [simp del]

lemma run_loop_unfold:
  "run_loop p req r st =
     (if int r < replications p then
        (if ls_aborted st
         then (Some ''Simulation Cancelled'', st\<lparr>ls_events := ls_events st @ [CheckCancel r]\<rparr>)
         else run_loop p req (Suc r) (loop_body p req r st))
      else (None, st))"
  by (cases st, subst run_loop.simps)
     (simp add: Let_def loop_body_def split: prod.splits)

lemma loop_body_aborted [simp]:
  "ls_aborted (loop_body p req r st) = (if r mod batchSize p = 0 then ls_aborted st \<or> req r else ls_aborted st)"
  by (simp add: loop_body_def)

lemma cancel_observed_step:
  assumes "int r < replications p"
  shows "cancel_observed p req r a \<longleftrightarrow>
           a \<or> cancel_observed p req (Suc r) (if r mod batchSize p = 0 then a \<or> req r else a)"
proof -
  have split: "(\<exists>j. r \<le> j \<and> P j) \<longleftrightarrow> P r \<or> (\<exists>j. Suc r \<le> j \<and> P j)" for P
    by (metis Suc_leI le_eq_less_or_eq order_refl Suc_leD)
  show ?thesis
    unfolding cancel_observed_def
    apply (subst split)
    using assms by auto
qed

lemma run_loop_outcome:
  "fst (run_loop p req r st) =
     (if cancel_observed p req r (ls_aborted st) then Some ''Simulation Cancelled'' else None)"
proof (induction "nat (replications p) - r" arbitrary: r st)
  case 0
  then have "\<not> int r < replications p" by simp
  then show ?case
    by (subst run_loop_unfold) (auto simp add: cancel_observed_def)
next
  case (Suc k)
  then have lt: "int r < replications p" and k: "k = nat (replications p) - Suc r" by auto
  show ?case
  proof (cases "ls_aborted st")
    case True
    with lt show ?thesis
      by (subst run_loop_unfold) (simp add: cancel_observed_def)
  next
    case False
    have "fst (run_loop p req r st) = fst (run_loop p req (Suc r) (loop_body p req r st))"
      using lt False by (subst run_loop_unfold) simp
    also have "\<dots> = (if cancel_observed p req (Suc r) (ls_aborted (loop_body p req r st))
                       then Some ''Simulation Cancelled'' else None)"
      using Suc.hyps(1) [OF k] .
    also have "\<dots> = (if cancel_observed p req r (ls_aborted st)
                       then Some ''Simulation Cancelled'' else None)"
      using False cancel_observed_step [OF lt, of req False] by simp
    finally show ?thesis .
  qed
qed

lemma run_loop_data:
  "fst (run_loop p req r st) = None \<Longrightarrow>
   data_of (snd (run_loop p req r st)) = reps p (nat (replications p) - r) (data_of st)"
proof (induction "nat (replications p) - r" arbitrary: r st)
  case 0
  then have "\<not> int r < replications p" by simp
  with 0 show ?case
    by (subst run_loop_unfold) simp
next
  case (Suc k)
  then have lt: "int r < replications p" and k: "k = nat (replications p) - Suc r" by auto
  from Suc.prems lt have na: "\<not> ls_aborted st"
    by (subst (asm) run_loop_unfold) (auto split: if_splits)
  have eq: "run_loop p req r st = run_loop p req (Suc r) (loop_body p req r st)"
    using lt na by (subst run_loop_unfold) simp
  have "data_of (snd (run_loop p req (Suc r) (loop_body p req r st)))
          = reps p k (data_of (loop_body p req r st))"
    using Suc.hyps(1) [OF k] Suc.prems eq k by simp
  also have "\<dots> = reps p (Suc k) (data_of st)"
    by (simp add: data_of_def loop_body_def split: prod.splits)
  finally show ?case
    using eq Suc.hyps(2) by simp
qed

lemma run_loop_trace:
  assumes "length (ls_ols st) = r" and "length (ls_iv st) = r" and "length (ls_fs st) = r"
  shows "(let st' = snd (run_loop p req r st); n = length (ls_ols st')
          in ls_events st' =
               ls_events st @ concat (map (iteration_events p) [r..<n])
                 @ (if fst (run_loop p req r st) = None then [] else [CheckCancel n])
             \<and> length (ls_iv st') = n \<and> length (ls_fs st') = n \<and> r \<le> n
             \<and> (if fst (run_loop p req r st) = None then n = max r (nat (replications p))
                  else int n < replications p))"
  using assms
proof (induction "nat (replications p) - r" arbitrary: r st)
  case 0
  then have "\<not> int r < replications p" by simp
  then have "run_loop p req r st = (None, st)"
    by (subst run_loop_unfold) simp
  with 0 show ?case
    by (simp add: Let_def max_def)
next
  case (Suc k)
  then have lt: "int r < replications p" and k: "k = nat (replications p) - Suc r" by auto
  show ?case
  proof (cases "ls_aborted st")
    case True
    with lt have "run_loop p req r st
        = (Some ''Simulation Cancelled'', st\<lparr>ls_events := ls_events st @ [CheckCancel r]\<rparr>)"
      by (subst run_loop_unfold) simp
    with lt Suc.prems show ?thesis
      by (simp add: Let_def)
  next
    case False
    have eq: "run_loop p req r st = run_loop p req (Suc r) (loop_body p req r st)"
      using lt False by (subst run_loop_unfold) simp
    have len: "length (ls_ols (loop_body p req r st)) = Suc r"
      "length (ls_iv (loop_body p req r st)) = Suc r"
      "length (ls_fs (loop_body p req r st)) = Suc r"
      using Suc.prems by (simp_all add: loop_body_def)
    have ev: "ls_events (loop_body p req r st) = ls_events st @ iteration_events p r"
      by (simp add: loop_body_def iteration_events_def)
    have up: "Suc r \<le> n \<Longrightarrow> [r..<n] = r # [Suc r..<n]" for n
      by (simp add: upt_conv_Cons)
    from Suc.hyps(1) [OF k len] show ?thesis
      unfolding eq Let_def ev using lt
      by (auto simp add: up max_def)
  qed
qed

lemma cancel_seen_observed: "cancel_seen p a req = cancel_observed p req 0 a"
  by (simp add: cancel_seen_def cancel_observed_def)

lemma run_cases:
  "runMonteCarloAsync p a req =
     (if cancel_seen p a req then Inl ''Simulation Cancelled''
      else Inr \<lparr>olsEstimates = ls_ols (final_state p a req),
                ivEstimates = ls_iv (final_state p a req),
                fStats = ls_fs (final_state p a req),
                olsBias = mean (ls_ols (final_state p a req)) - betaTrue p,
                ivBias = mean (ls_iv (final_state p a req)) - betaTrue p,
                olsVariance = variance (ls_ols (final_state p a req)) None,
                ivVariance = variance (ls_iv (final_state p a req)) None\<rparr>)"
proof -
  obtain out st where r: "run_loop p req 0 (initial_state p a) = (out, st)"
    by (cases "run_loop p req 0 (initial_state p a)")
  have "out = (if cancel_seen p a req then Some ''Simulation Cancelled'' else None)"
    using run_loop_outcome [of p req 0 "initial_state p a"] r
    by (simp add: cancel_seen_observed initial_state_def)
  then show ?thesis
    using r by (simp add: runMonteCarloAsync_def final_state_def Let_def)
qed

lemma final_state_data:
  "\<not> cancel_seen p a req \<Longrightarrow>
   data_of (final_state p a req)
     = reps p (nat (replications p)) (new_SeededRNG (seed p), [], [], [])"
  using run_loop_data [of p req 0 "initial_state p a"]
        run_loop_outcome [of p req 0 "initial_state p a"]
  by (simp add: final_state_def cancel_seen_observed data_of_def initial_state_def)

lemma run_trace:
  "run_events p a req =
     concat (map (iteration_events p) [0..<completed p a req])
       @ (if cancel_seen p a req then [CheckCancel (completed p a req)] else [])
   \<and> length (ls_iv (final_state p a req)) = completed p a req
   \<and> length (ls_fs (final_state p a req)) = completed p a req
   \<and> (if cancel_seen p a req then int (completed p a req) < replications p
        else completed p a req = nat (replications p))"
  using run_loop_trace [of "initial_state p a" 0 p req]
        run_loop_outcome [of p req 0 "initial_state p a"]
  by (simp add: Let_def run_events_def final_state_def completed_def cancel_seen_observed
        initial_state_def split: if_splits)

lemma not_seen_example_1: "\<not> cancel_seen (example_params 2 1 (4 / 5)) False req"
  by (simp add: cancel_seen_def example_params_def)

section \<open>Claims about the driver\<close>

text \<open>
  C1. Two runs with the same parameters that both complete return the same
  \<open>SimulationResult\<close>: the same three sequences and the same four scalars, whatever the
  state of the abort signal on entry and whenever abort requests arrive during the
  suspensions of either run.
\<close>

theorem run_deterministic:
  assumes "runMonteCarloAsync p a1 req1 = Inr res1"
      and "runMonteCarloAsync p a2 req2 = Inr res2"
  shows "res1 = res2"
proof -
  have n1: "\<not> cancel_seen p a1 req1" and n2: "\<not> cancel_seen p a2 req2"
    using assms by (auto simp add: run_cases split: if_splits)
  have "data_of (final_state p a1 req1) = data_of (final_state p a2 req2)"
    by (simp only: final_state_data [OF n1] final_state_data [OF n2])
  then have "ls_ols (final_state p a1 req1) = ls_ols (final_state p a2 req2)"
        and "ls_iv (final_state p a1 req1) = ls_iv (final_state p a2 req2)"
        and "ls_fs (final_state p a1 req1) = ls_fs (final_state p a2 req2)"
    by (simp_all add: data_of_def)
  with assms n1 n2 show ?thesis
    by (simp add: run_cases)
qed

text \<open>
  C1, witness: one replication of sample size 2 with seed 12345, once with no request and
  once with a request during the only suspension; both runs complete, with one result.
\<close>

theorem run_deterministic_witness:
  "runMonteCarloAsync (example_params 2 1 (4 / 5)) False no_request
     = Inr (projr (runMonteCarloAsync (example_params 2 1 (4 / 5)) False no_request))
   \<and> runMonteCarloAsync (example_params 2 1 (4 / 5)) False request_always
     = Inr (projr (runMonteCarloAsync (example_params 2 1 (4 / 5)) False request_always))
   \<and> projr (runMonteCarloAsync (example_params 2 1 (4 / 5)) False no_request)
     = projr (runMonteCarloAsync (example_params 2 1 (4 / 5)) False request_always)"
proof -
  have a: "runMonteCarloAsync (example_params 2 1 (4 / 5)) False no_request
     = Inr (projr (runMonteCarloAsync (example_params 2 1 (4 / 5)) False no_request))"
    by (simp add: run_cases not_seen_example_1)
  have b: "runMonteCarloAsync (example_params 2 1 (4 / 5)) False request_always
     = Inr (projr (runMonteCarloAsync (example_params 2 1 (4 / 5)) False request_always))"
    by (simp add: run_cases not_seen_example_1)
  from a b run_deterministic [OF a b] show ?thesis by simp
qed

text \<open>
  C2 as stated fails: the driver validates nothing. With sample size 1 and \<open>\<rho> = 2\<close> a run
  of one replication that nobody cancels checks the flag, suspends, executes the replication
  and returns a result; with a replication count of 0 it returns a result as well.
\<close>

theorem invalid_configuration_counterexample:
  "sampleSize (example_params 1 1 2) < 2
   \<and> \<not> (- 1 < endogeneity (example_params 1 1 2) \<and> endogeneity (example_params 1 1 2) < 1)
   \<and> \<not> isl (runMonteCarloAsync (example_params 1 1 2) False no_request)
   \<and> run_events (example_params 1 1 2) False no_request
       = [CheckCancel 0, YieldPause 0, Replicate 0]
   \<and> replications (example_params 1 0 2) < 1
   \<and> \<not> isl (runMonteCarloAsync (example_params 1 0 2) False no_request)"
proof -
  have ns: "\<not> cancel_seen (example_params 1 1 2) False no_request"
    by (simp add: cancel_seen_def example_params_def)
  have ns0: "\<not> cancel_seen (example_params 1 0 2) False no_request"
    by (simp add: cancel_seen_def example_params_def)
  have c: "completed (example_params 1 1 2) False no_request = 1"
    using run_trace [of "example_params 1 1 2" False no_request] ns
    by (simp add: example_params_def)
  have "run_events (example_params 1 1 2) False no_request
       = [CheckCancel 0, YieldPause 0, Replicate 0]"
    using run_trace [of "example_params 1 1 2" False no_request] ns c
    by (simp add: iteration_events_def batchSize_def example_params_def)
  then show ?thesis
    using ns ns0 by (simp add: run_cases) (simp add: example_params_def)
qed

text \<open>
  C2, amended. For all parameters, valid or not, the only error a run raises is
  \<^verbatim>\<open>Simulation Cancelled\<close>; a run that nobody cancels returns a result whose three
  sequences have \<open>max 0 replications\<close> entries, after executing that many iterations.
\<close>

theorem run_only_error_is_cancellation:
  "isl (runMonteCarloAsync p a req)
     = (runMonteCarloAsync p a req = Inl ''Simulation Cancelled'')
   \<and> \<not> isl (runMonteCarloAsync p False no_request)
   \<and> length (olsEstimates (projr (runMonteCarloAsync p False no_request)))
       = nat (replications p)
   \<and> length (ivEstimates (projr (runMonteCarloAsync p False no_request)))
       = nat (replications p)
   \<and> length (fStats (projr (runMonteCarloAsync p False no_request)))
       = nat (replications p)
   \<and> run_events p False no_request
       = concat (map (iteration_events p) [0..<nat (replications p)])"
proof -
  have ns: "\<not> cancel_seen p False no_request"
    by (simp add: cancel_seen_def no_request_def)
  have c: "completed p False no_request = nat (replications p)"
    using run_trace [of p False no_request] ns by simp
  have "isl (runMonteCarloAsync p a req)
     = (runMonteCarloAsync p a req = Inl ''Simulation Cancelled'')"
    by (simp add: run_cases)
  moreover have "\<not> isl (runMonteCarloAsync p False no_request)"
    using ns by (simp add: run_cases)
  moreover have "length (olsEstimates (projr (runMonteCarloAsync p False no_request)))
       = nat (replications p)"
    using ns c by (simp add: run_cases completed_def)
  moreover have "length (ivEstimates (projr (runMonteCarloAsync p False no_request)))
       = nat (replications p)"
    using ns c run_trace [of p False no_request] by (simp add: run_cases)
  moreover have "length (fStats (projr (runMonteCarloAsync p False no_request)))
       = nat (replications p)"
    using ns c run_trace [of p False no_request] by (simp add: run_cases)
  moreover have "run_events p False no_request
       = concat (map (iteration_events p) [0..<nat (replications p)])"
    using ns c run_trace [of p False no_request] by simp
  ultimately show ?thesis by blast
qed



text \<open>
  C5 as stated fails: the flag is read at the start of every iteration, not once per batch.
  With sample size 2 the batch size is 10; a request during the suspension of iteration 0
  is honoured at index 1, after one replication, and a run of two replications that nobody
  cancels reads the flag twice while suspending once.
\<close>

theorem check_every_replication_counterexample:
  "batchSize (example_params 2 3 (4 / 5)) = 10
   \<and> run_events (example_params 2 3 (4 / 5)) False request_always
       = [CheckCancel 0, YieldPause 0, Replicate 0, CheckCancel 1]
   \<and> runMonteCarloAsync (example_params 2 3 (4 / 5)) False request_always
       = Inl ''Simulation Cancelled''
   \<and> run_events (example_params 2 2 (4 / 5)) False no_request
       = [CheckCancel 0, YieldPause 0, Replicate 0, CheckCancel 1, Replicate 1]"
proof -
  have e1: "run_events (example_params 2 3 (4 / 5)) False request_always
       = [CheckCancel 0, YieldPause 0, Replicate 0, CheckCancel 1]"
    by (simp add: run_events_def initial_state_def run_loop_unfold loop_body_def
          batchSize_def example_params_def request_always_def)
  have e2: "run_events (example_params 2 2 (4 / 5)) False no_request
       = [CheckCancel 0, YieldPause 0, Replicate 0, CheckCancel 1, Replicate 1]"
    by (simp add: run_events_def initial_state_def run_loop_unfold loop_body_def
          batchSize_def example_params_def no_request_def)
  have s: "cancel_seen (example_params 2 3 (4 / 5)) False request_always"
    by (auto simp add: cancel_seen_def example_params_def batchSize_def request_always_def
          intro!: exI [of _ 0])
  show ?thesis
    using e1 e2 s by (simp add: run_cases) (simp add: batchSize_def example_params_def)
qed

text \<open>
  C5, amended. The batch size is 1 for sample sizes above 10000 and 10 otherwise. A run is
  a sequence of whole iterations, each one reading the flag, then suspending if its index is
  a multiple of the batch size, then executing its replication; a cancelled run ends with
  one more reading of the flag and nothing after it. The three arrays have one entry for
  every iteration executed, so a replication that has begun appends all three values
  before the flag is read again.
\<close>

theorem run_events_shape:
  "batchSize p = (if sampleSize p > 10000 then 1 else 10)
   \<and> run_events p a req =
       concat (map (iteration_events p) [0..<completed p a req])
         @ (if isl (runMonteCarloAsync p a req) then [CheckCancel (completed p a req)] else [])
   \<and> length (ls_ols (final_state p a req)) = completed p a req
   \<and> length (ls_iv (final_state p a req)) = completed p a req
   \<and> length (ls_fs (final_state p a req)) = completed p a req"
  using run_trace [of p a req]
  by (simp add: run_cases batchSize_def completed_def)

section \<open>One replication\<close>



lemma gcn_loop_length:
  "length (fst (fst (gcn_loop k rho g u v))) = length u + k
   \<and> length (snd (fst (gcn_loop k rho g u v))) = length v + k"
  by (induction k arbitrary: g u v) (simp_all add: Let_def split: prod.splits)

lemma generateCorrelatedNormals_length:
  "length (fst (fst (generateCorrelatedNormals n rho g))) = nat n"
  "length (snd (fst (generateCorrelatedNormals n rho g))) = nat n"
  using gcn_loop_length [of "nat n" rho g "[]" "[]"]
  by (simp_all add: generateCorrelatedNormals_def)

lemma generate_sample_eq:
  "generate_sample p g =
     (let u = fst (fst (first_call p g)); v = snd (fst (first_call p g));
          z = fst (fst (second_call p g));
          x = map (\<lambda>(val, i). ivStrength p * val + v ! i) (zip z [0..<length z]);
          y = map (\<lambda>(val, i). betaTrue p * val + u ! i) (zip x [0..<length x])
      in ((x, y, z), snd (second_call p g)))"
  by (simp add: generate_sample_def first_call_def second_call_def Let_def split: prod.splits)

lemma replication_eq:
  "replication p g =
     (case sample_of p g of
        (x, y, z) \<Rightarrow>
          ((estimateOLS x y, estimateIV x y z, firstStageF z x (sampleSize p)),
           snd (second_call p g)))"
  by (simp add: replication_def sample_of_def generate_sample_eq Let_def)






section \<open>Claims about one replication\<close>

text \<open>
  C6. In a replication that starts with generator \<open>g\<close>, \<open>(u, v)\<close> are the two sequences
  of the first call of the generator with the configured \<open>\<rho>\<close>, \<open>z\<close> is the first sequence
  of the second call with \<open>\<rho> = 0\<close> (its second sequence is used nowhere), all of length
  \<open>N\<close>, and the sample satisfies \<open>x\<^sub>i = \<pi> z\<^sub>i + v\<^sub>i\<close> and \<open>y\<^sub>i = \<beta> x\<^sub>i + u\<^sub>i\<close> for
  all \<open>i < N\<close>; the three estimates of the replication are computed from this sample.
\<close>

theorem sample_structure:
  "(let u = fst (fst (first_call p g)); v = snd (fst (first_call p g));
        z = fst (fst (second_call p g));
        (x, y, z') = sample_of p g
    in z' = z \<and> length x = nat (sampleSize p) \<and> length y = nat (sampleSize p)
       \<and> length z = nat (sampleSize p)
       \<and> length u = nat (sampleSize p) \<and> length v = nat (sampleSize p)
       \<and> (\<forall>i < nat (sampleSize p).
             x ! i = ivStrength p * z ! i + v ! i \<and> y ! i = betaTrue p * x ! i + u ! i)
       \<and> fst (replication p g)
           = (estimateOLS x y, estimateIV x y z, firstStageF z x (sampleSize p)))"
  by (simp add: replication_eq)
     (simp add: sample_of_def generate_sample_eq Let_def first_call_def second_call_def
        generateCorrelatedNormals_length)

text \<open>C6, witness: the first element of a sample of size 2 drawn with seed 12345.\<close>

theorem sample_structure_witness:
  "0 < nat (sampleSize (example_params 2 1 (4 / 5)))
   \<and> fst (sample_of (example_params 2 1 (4 / 5)) (new_SeededRNG 12345)) ! 0
       = ivStrength (example_params 2 1 (4 / 5))
           * fst (fst (second_call (example_params 2 1 (4 / 5)) (new_SeededRNG 12345))) ! 0
         + snd (fst (first_call (example_params 2 1 (4 / 5)) (new_SeededRNG 12345))) ! 0
   \<and> fst (snd (sample_of (example_params 2 1 (4 / 5)) (new_SeededRNG 12345))) ! 0
       = betaTrue (example_params 2 1 (4 / 5))
           * fst (sample_of (example_params 2 1 (4 / 5)) (new_SeededRNG 12345)) ! 0
         + fst (fst (first_call (example_params 2 1 (4 / 5)) (new_SeededRNG 12345))) ! 0"
proof -
  have n: "0 < nat (sampleSize (example_params 2 1 (4 / 5)))"
    by (simp add: example_params_def)
  with sample_structure [of "example_params 2 1 (4 / 5)" "new_SeededRNG 12345"]
  show ?thesis
    by (auto simp add: Let_def split: prod.splits)
qed


section \<open>The histogram binner\<close>

lemma percentile_index_less:
  assumes "0 < m"
  shows "nat \<lfloor>real m * 0.02\<rfloor> < m" and "nat \<lfloor>real m * 0.98\<rfloor> < m"
proof -
  have "real m * 0.02 < real m" and "real m * 0.98 < real m"
    using assms by simp_all
  then have "\<lfloor>real m * 0.02\<rfloor> < int m" and "\<lfloor>real m * 0.98\<rfloor> < int m"
    by (simp_all add: floor_less_iff)
  then show "nat \<lfloor>real m * 0.02\<rfloor> < m" and "nat \<lfloor>real m * 0.98\<rfloor> < m"
    using assms by linarith+
qed

lemma createHistogramData_bins:
  assumes "ols @ iv \<noteq> []"
  shows "createHistogramData ols iv bins =
     map (\<lambda>i. \<lparr>rangeStart = hist_start ols iv + real i * hist_step ols iv bins,
               rangeEnd = hist_start ols iv + (real i + 1) * hist_step ols iv bins,
               olsFrequency = in_bin (hist_start ols iv + real i * hist_step ols iv bins)
                                (hist_start ols iv + (real i + 1) * hist_step ols iv bins) ols,
               ivFrequency = in_bin (hist_start ols iv + real i * hist_step ols iv bins)
                                (hist_start ols iv + (real i + 1) * hist_step ols iv bins) iv,
               midpoint = (hist_start ols iv + real i * hist_step ols iv bins
                           + (hist_start ols iv + (real i + 1) * hist_step ols iv bins)) / 2\<rparr>)
         [0..<nat bins]"
proof -
  have m: "0 < length (sort (ols @ iv))"
    using assms by (cases ols) simp_all
  have ne: "ols \<noteq> [] \<or> iv \<noteq> []"
    using assms by simp
  note idx = percentile_index_less [OF m]
  show ?thesis
    unfolding createHistogramData_def Let_def
    using idx ne
    by (auto simp add: hist_step_def hist_start_def hist_end_def hist_min_def hist_max_def
          merged_def in_bin_def)
qed

lemma all_equal_nth:
  assumes "\<forall>v \<in> set xs. v = c" and "i < length xs"
  shows "sort xs ! i = (c :: real)"
proof -
  have "sort xs ! i \<in> set (sort xs)"
    using assms(2) by (intro nth_mem) simp
  with assms(1) show ?thesis by simp
qed

lemma createHistogramData_rd_edges:
  assumes "ols @ iv \<noteq> []" and "i < nat bins"
  shows "rangeStart (createHistogramData_rd rd ols iv bins ! i) = hist_edge_rd rd ols iv bins i"
    and "rangeEnd (createHistogramData_rd rd ols iv bins ! i) = hist_edge_rd rd ols iv bins (Suc i)"
  using assms
  by (auto simp add: createHistogramData_rd_def hist_edge_rd_def Let_def add.commute)

lemma createHistogramData_rd_length:
  "ols @ iv \<noteq> [] \<Longrightarrow> length (createHistogramData_rd rd ols iv bins) = nat bins"
  by (auto simp add: createHistogramData_rd_def Let_def)

lemma createHistogramData_rd_exact:
  "createHistogramData_rd (\<lambda>v. v) ols iv bins = createHistogramData ols iv bins"
  by (simp add: createHistogramData_rd_def createHistogramData_def)

text \<open>The edges of the example in doubles: 0.8 and 3.2 are rounded, 2 is exact.\<close>

lemma edges_example:
  "hist_edge_rd round_double [1, 2] [3] 2 0 = 3602879701896397 / 4503599627370496"
  "hist_edge_rd round_double [1, 2] [3] 2 (Suc 0) = 2"
  "hist_edge_rd round_double [1, 2] [3] 2 (Suc (Suc 0)) = 3602879701896397 / 1125899906842624"
  by (simp_all add: hist_edge_rd_def Let_def round_double_hist)

text \<open>An example: two OLS estimates, one IV estimate, two bins.\<close>

lemma hist_example:
  "createHistogramData [1, 2] [3] 2 =
     [\<lparr>rangeStart = 4 / 5, rangeEnd = 2, olsFrequency = 1 / 2, ivFrequency = 0,
       midpoint = 7 / 5\<rparr>,
      \<lparr>rangeStart = 2, rangeEnd = 16 / 5, olsFrequency = 1 / 2, ivFrequency = 1,
       midpoint = 13 / 5\<rparr>]"
  by (simp add: createHistogramData_def Let_def upt_rec)

section \<open>Claims about the histogram binner\<close>

text \<open>
  C8 as stated fails in its last part: the edges are computed in doubles, and the widths
  \<open>rangeEnd - rangeStart\<close> of two bins can differ. For \<open>[1, 2]\<close>, \<open>[3]\<close> and two bins
  the edges are the doubles nearest to 0.8, 2 and 3.2; the first bin is narrower than the
  second by \<open>2\<^sup>-\<^sup>5\<^sup>2\<close>.
\<close>

theorem double_bin_width_counterexample:
  "[1, 2] @ [3 :: real] \<noteq> []
   \<and> length (createHistogramData_rd round_double [1, 2] [3] 2) = 2
   \<and> rangeStart (createHistogramData_rd round_double [1, 2] [3] 2 ! 0)
       = 3602879701896397 / 4503599627370496
   \<and> rangeEnd (createHistogramData_rd round_double [1, 2] [3] 2 ! 0) = 2
   \<and> rangeStart (createHistogramData_rd round_double [1, 2] [3] 2 ! 1) = 2
   \<and> rangeEnd (createHistogramData_rd round_double [1, 2] [3] 2 ! 1)
       = 3602879701896397 / 1125899906842624
   \<and> rangeEnd (createHistogramData_rd round_double [1, 2] [3] 2 ! 0)
         - rangeStart (createHistogramData_rd round_double [1, 2] [3] 2 ! 0)
       \<noteq> rangeEnd (createHistogramData_rd round_double [1, 2] [3] 2 ! 1)
         - rangeStart (createHistogramData_rd round_double [1, 2] [3] 2 ! 1)"
proof -
  have ne: "[1, 2] @ [3 :: real] \<noteq> []" by simp
  have i0: "0 < nat 2" and i1: "Suc 0 < nat 2" by simp_all
  note a0 = createHistogramData_rd_edges [OF ne i0, of round_double]
  note a1 = createHistogramData_rd_edges [OF ne i1, of round_double]
  show ?thesis
    using createHistogramData_rd_length [OF ne, of round_double 2]
    by (simp add: a0 a1 edges_example)
qed

text \<open>
  C8, amended. On two empty sequences \<open>createHistogramData\<close> returns the empty sequence.
  On sequences that are not both empty and a bin count \<open>bins \<ge> 0\<close> it returns exactly
  \<open>bins\<close> bins, for any rounding; bin \<open>i\<close> runs from edge \<open>i\<close> to edge \<open>i + 1\<close>, where
  edge \<open>k\<close> is \<open>start + k * step\<close> as the code rounds it, so each bin ends where the next
  begins. In exact arithmetic every bin has the same width, the \<open>bins\<close>-th part of the
  covered range.
\<close>

theorem histogram_bins_and_edges:
  assumes "ols @ iv \<noteq> []" and "0 \<le> bins"
  shows "createHistogramData_rd rd [] [] bins = []
       \<and> int (length (createHistogramData_rd rd ols iv bins)) = bins
       \<and> (\<forall>i < nat bins.
             rangeStart (createHistogramData_rd rd ols iv bins ! i)
               = hist_edge_rd rd ols iv bins i
           \<and> rangeEnd (createHistogramData_rd rd ols iv bins ! i)
               = hist_edge_rd rd ols iv bins (Suc i))
       \<and> createHistogramData_rd (\<lambda>v. v) ols iv bins = createHistogramData ols iv bins
       \<and> (\<forall>i < nat bins.
             rangeEnd (createHistogramData ols iv bins ! i)
               - rangeStart (createHistogramData ols iv bins ! i) = hist_step ols iv bins)"
proof -
  have "createHistogramData_rd rd [] [] bins = []"
    by (simp add: createHistogramData_rd_def)
  moreover have "int (length (createHistogramData_rd rd ols iv bins)) = bins"
    using assms by (simp add: createHistogramData_rd_length)
  moreover have "\<forall>i < nat bins.
             rangeStart (createHistogramData_rd rd ols iv bins ! i)
               = hist_edge_rd rd ols iv bins i
           \<and> rangeEnd (createHistogramData_rd rd ols iv bins ! i)
               = hist_edge_rd rd ols iv bins (Suc i)"
    using assms(1) by (simp add: createHistogramData_rd_edges)
  moreover have "\<forall>i < nat bins.
             rangeEnd (createHistogramData ols iv bins ! i)
               - rangeStart (createHistogramData ols iv bins ! i) = hist_step ols iv bins"
    using assms by (simp add: createHistogramData_bins algebra_simps)
  ultimately show ?thesis
    by (simp add: createHistogramData_rd_exact)
qed

text \<open>
  C8, witness: the example has two bins that meet at 2 in doubles; in exact arithmetic both
  have width 6/5.
\<close>

theorem histogram_bins_and_edges_witness:
  "[1, 2] @ [3 :: real] \<noteq> [] \<and> (0 :: int) \<le> 2
   \<and> int (length (createHistogramData_rd round_double [1, 2] [3] 2)) = 2
   \<and> (0 :: nat) < nat 2 \<and> (1 :: nat) < nat 2
   \<and> rangeEnd (createHistogramData_rd round_double [1, 2] [3] 2 ! 0) = 2
   \<and> rangeStart (createHistogramData_rd round_double [1, 2] [3] 2 ! 1) = 2
   \<and> rangeEnd (createHistogramData [1, 2] [3] 2 ! 0)
         - rangeStart (createHistogramData [1, 2] [3] 2 ! 0) = 6 / 5
   \<and> rangeEnd (createHistogramData [1, 2] [3] 2 ! 1)
         - rangeStart (createHistogramData [1, 2] [3] 2 ! 1) = 6 / 5"
proof -
  have s: "hist_step [1, 2] [3] 2 = 6 / 5"
    by (simp add: hist_step_def hist_start_def hist_end_def hist_min_def hist_max_def merged_def)
  have a: "[1, 2] @ [3 :: real] \<noteq> []" and b: "(0 :: int) \<le> 2" by simp_all
  have i0: "0 < nat 2" and i1: "Suc 0 < nat 2" by simp_all
  note t = histogram_bins_and_edges [OF a b, of round_double]
  note r = t [THEN conjunct2, THEN conjunct2, THEN conjunct1, rule_format]
  note w = t [THEN conjunct2, THEN conjunct2, THEN conjunct2, THEN conjunct2, rule_format]
  have "int (length (createHistogramData_rd round_double [1, 2] [3] 2)) = 2"
    using t by simp
  moreover have "rangeEnd (createHistogramData_rd round_double [1, 2] [3] 2 ! 0) = 2"
    using r [OF i0] by (simp add: edges_example)
  moreover have "rangeStart (createHistogramData_rd round_double [1, 2] [3] 2 ! Suc 0) = 2"
    using r [OF i1] by (simp add: edges_example)
  moreover have "rangeEnd (createHistogramData [1, 2] [3] 2 ! 0)
         - rangeStart (createHistogramData [1, 2] [3] 2 ! 0) = 6 / 5"
    using w [OF i0] s by simp
  moreover have "rangeEnd (createHistogramData [1, 2] [3] 2 ! Suc 0)
         - rangeStart (createHistogramData [1, 2] [3] 2 ! Suc 0) = 6 / 5"
    using w [OF i1] s by simp
  ultimately show ?thesis by simp
qed

text \<open>
  C9. The covered range is computed from both sequences together: in the merged sequence
  sorted ascending, of length \<open>m\<close>, the raw bounds are the elements at the indices
  \<open>\<lfloor>0.02 m\<rfloor>\<close> and \<open>\<lfloor>0.98 m\<rfloor>\<close>; the range between them is extended by a tenth of its
  width on each side; bin \<open>i\<close> of \<open>bins\<close> is the \<open>i\<close>-th of \<open>bins\<close> equal parts of the
  extended range, so the first bin starts and the last bin ends where the extended range
  does.
\<close>

theorem histogram_range:
  assumes "ols @ iv \<noteq> []" and "0 < bins"
  shows "hist_min ols iv = sort (ols @ iv) ! nat \<lfloor>real (length (ols @ iv)) * 0.02\<rfloor>
       \<and> hist_max ols iv = sort (ols @ iv) ! nat \<lfloor>real (length (ols @ iv)) * 0.98\<rfloor>
       \<and> hist_start ols iv = hist_min ols iv - 0.1 * (hist_max ols iv - hist_min ols iv)
       \<and> hist_end ols iv = hist_max ols iv + 0.1 * (hist_max ols iv - hist_min ols iv)
       \<and> rangeStart (createHistogramData ols iv bins ! 0) = hist_start ols iv
       \<and> rangeEnd (createHistogramData ols iv bins ! (nat bins - 1)) = hist_end ols iv
       \<and> (\<forall>i < nat bins.
             rangeStart (createHistogramData ols iv bins ! i)
               = hist_start ols iv
                 + real i * ((hist_end ols iv - hist_start ols iv) / real_of_int bins)
           \<and> rangeEnd (createHistogramData ols iv bins ! i)
               = hist_start ols iv
                 + (real i + 1) * ((hist_end ols iv - hist_start ols iv) / real_of_int bins))"
proof -
  have last: "real (nat bins - 1) + 1 = real_of_int bins"
    using assms(2) by (simp add: of_nat_diff)
  have "rangeEnd (createHistogramData ols iv bins ! (nat bins - 1)) = hist_end ols iv"
    using assms by (simp add: createHistogramData_bins last hist_step_def)
  moreover have "rangeStart (createHistogramData ols iv bins ! 0) = hist_start ols iv"
    using assms by (simp add: createHistogramData_bins)
  moreover have "\<forall>i < nat bins.
             rangeStart (createHistogramData ols iv bins ! i)
               = hist_start ols iv
                 + real i * ((hist_end ols iv - hist_start ols iv) / real_of_int bins)
           \<and> rangeEnd (createHistogramData ols iv bins ! i)
               = hist_start ols iv
                 + (real i + 1) * ((hist_end ols iv - hist_start ols iv) / real_of_int bins)"
    using assms by (simp add: createHistogramData_bins hist_step_def)
  ultimately show ?thesis
    by (simp add: hist_min_def hist_max_def hist_start_def hist_end_def merged_def)
qed

text \<open>C9, witness: in the example the raw bounds are 1 and 3 and the bins cover 4/5 to 16/5.\<close>

theorem histogram_range_witness:
  "[1, 2] @ [3 :: real] \<noteq> [] \<and> (0 :: int) < 2
   \<and> hist_min [1, 2] [3] = 1 \<and> hist_max [1, 2] [3] = 3
   \<and> (0 :: nat) < nat 2 \<and> (1 :: nat) < nat 2
   \<and> rangeStart (createHistogramData [1, 2] [3] 2 ! 0) = 4 / 5
   \<and> rangeEnd (createHistogramData [1, 2] [3] 2 ! 0) = 2
   \<and> rangeStart (createHistogramData [1, 2] [3] 2 ! 1) = 2
   \<and> rangeEnd (createHistogramData [1, 2] [3] 2 ! 1) = 16 / 5"
proof -
  have a: "[1, 2] @ [3 :: real] \<noteq> []" and b: "(0 :: int) < 2" by simp_all
  have m: "hist_min [1, 2] [3] = 1" "hist_max [1, 2] [3] = 3"
    by (simp_all add: hist_min_def hist_max_def merged_def)
  from histogram_range [OF a b] m show ?thesis
    by (simp add: hist_start_def hist_end_def)
qed

text \<open>
  C10. If the sequences are not both empty and every element of both is the same value
  \<open>c\<close>, \<open>createHistogramData\<close> returns the requested number of bins, each of them with
  \<open>rangeStart = rangeEnd = c\<close> (and midpoint \<open>c\<close>) and with both frequencies 0: no
  estimate is counted in any bin.
\<close>

theorem histogram_constant_input:
  assumes "ols @ iv \<noteq> []" and "\<forall>v \<in> set (ols @ iv). v = c"
  shows "createHistogramData ols iv bins =
           replicate (nat bins)
             \<lparr>rangeStart = c, rangeEnd = c, olsFrequency = 0, ivFrequency = 0, midpoint = c\<rparr>"
proof -
  have m: "0 < length (ols @ iv)"
    using assms(1) by (cases ols) simp_all
  have lo: "hist_min ols iv = c" and hi: "hist_max ols iv = c"
    using all_equal_nth [OF assms(2)] percentile_index_less [OF m]
    by (simp_all add: hist_min_def hist_max_def merged_def)
  have st: "hist_start ols iv = c" and step: "hist_step ols iv bins = 0"
    by (simp_all add: hist_start_def hist_end_def hist_step_def lo hi)
  have "createHistogramData ols iv bins =
          map (\<lambda>i. \<lparr>rangeStart = c, rangeEnd = c, olsFrequency = 0, ivFrequency = 0,
                     midpoint = c\<rparr>) [0..<nat bins]"
    by (simp add: createHistogramData_bins [OF assms(1)] st step in_bin_def)
  then show ?thesis
    by (simp add: map_replicate_const)
qed

text \<open>C10, witness: two OLS estimates equal to 5, no IV estimate, three bins.\<close>

theorem histogram_constant_input_witness:
  "[5, 5] @ ([] :: real list) \<noteq> [] \<and> set ([5, 5] @ ([] :: real list)) = {5}
   \<and> createHistogramData [5, 5] [] 3 =
         [\<lparr>rangeStart = 5, rangeEnd = 5, olsFrequency = 0, ivFrequency = 0, midpoint = 5\<rparr>,
          \<lparr>rangeStart = 5, rangeEnd = 5, olsFrequency = 0, ivFrequency = 0, midpoint = 5\<rparr>,
          \<lparr>rangeStart = 5, rangeEnd = 5, olsFrequency = 0, ivFrequency = 0, midpoint = 5\<rparr>]"
proof -
  have a: "[5, 5] @ ([] :: real list) \<noteq> []" by simp
  have b: "\<forall>v \<in> set ([5, 5] @ ([] :: real list)). v = 5" by simp
  from histogram_constant_input [OF a b, of 3] show ?thesis
    by (simp add: numeral_3_eq_3)
qed

end
